theory Spec2Isabelle
  imports Complex_Main
begin

section \<open>Locus filters of ipyrad's write\_outfiles\<close>

text \<open>
  A shallow embedding of \<^verbatim>\<open>src/ipyrad/assemble/write_outfiles.py\<close>.
  The sequence store \<^verbatim>\<open>superseqs\<close> is a numpy array of one-byte strings with shape
  (loci of the chunk, samples, sites). It is a list of loci here, a locus a list of sample
  rows, a row a list of site symbols. A cell is a \<^typ>\<open>char\<close>; the empty cell
  \<^verbatim>\<open>""\<close> of a one-byte string array is the zero byte.
\<close>

subsection \<open>Errors\<close>

datatype error = UnboundLocalError | NameError | TypeError | ValueError | IndexError

subsection \<open>The polymorphism classifier\<close>

text \<open>
  Modelled from the spec: the table \<^verbatim>\<open>AMBIGS\<close> comes from the module
  \<^verbatim>\<open>util\<close>, which is not among the sources. The spec speaks of the six standard
  two-state ambiguity codes, each the heterozygous resolution of two bases; the table
  below is the IUPAC one. \<^verbatim>\<open>ucount\<close> reads it at the six keys only.
\<close>

definition AMBIGS :: "char \<Rightarrow> string" where
  "AMBIGS c =
     (if c = CHR ''R'' then ''GA''
      else if c = CHR ''K'' then ''GT''
      else if c = CHR ''S'' then ''GC''
      else if c = CHR ''Y'' then ''TC''
      else if c = CHR ''W'' then ''TA''
      else if c = CHR ''M'' then ''CA''
      else [])"

text \<open>
  One round of the loop \<^verbatim>\<open>for iupac in "RSKYWM"\<close>: a code that is in the set
  is discarded and its two bases are added.
\<close>

definition resolve_step :: "char \<Rightarrow> char set \<Rightarrow> char set" where
  "resolve_step iupac site =
     (if iupac \<in> site then (site - {iupac}) \<union> set (AMBIGS iupac) else site)"

text \<open>
  \<^verbatim>\<open>np.sum(sitecol == base)\<close> is the number of cells of the column that hold
  \<^verbatim>\<open>base\<close>; \<^verbatim>\<open>ccx\<close> is the number of members of \<^verbatim>\<open>site\<close> for which
  that number exceeds one.
\<close>

definition ucount :: "char list \<Rightarrow> char" where
  "ucount sitecol =
     (let site = set sitecol;
          site = fold resolve_step ''RSKYWM'' site;
          site = site - {CHR ''N''};
          site = site - {CHR ''-''}
      in if card site < 2 then CHR '' ''
         else (let ccx = card {base \<in> site. 1 < count_list sitecol base}
               in if 1 < ccx then CHR ''*'' else CHR ''-''))"

subsection \<open>The dataset configuration\<close>

text \<open>
  \<^verbatim>\<open>data.paramsdict\<close>, with the keys the filters read. The entries
  \<^verbatim>\<open>excludes\<close> and \<^verbatim>\<open>outgroups\<close> are either the empty string or a list
  of names, as the comment in \<^verbatim>\<open>select_samples\<close> says.
\<close>

datatype names_param = EmptyString | Names "string list"

record paramsdict =
  data_type :: string
  edge_trimming :: "int \<times> int \<times> int \<times> int"
  minsamp :: int
  restriction_overhangs :: "string \<times> string"
  min_samples_locus :: int
  max_shared_heterozygosity :: "rat \<times> rat"
  max_SNPs_locus :: "int \<times> int"
  excludes :: names_param
  outgroups :: names_param

text \<open>\<^verbatim>\<open>sub in s\<close> on strings.\<close>

fun str_in :: "string \<Rightarrow> string \<Rightarrow> bool" where
  "str_in sub [] = (sub = [])"
| "str_in sub (c # cs) = (take (length sub) (c # cs) = sub \<or> str_in sub cs)"

text \<open>\<^verbatim>\<open>"pair" in data.paramsdict["datatype"]\<close>\<close>

definition is_paired :: "paramsdict \<Rightarrow> bool" where
  "is_paired data = str_in ''pair'' (data_type data)"

subsection \<open>Slices and reductions\<close>

text \<open>
  A slice bound of Python: a negative bound counts from the end, and every bound is
  clipped to the length.
\<close>

definition clip_index :: "nat \<Rightarrow> int \<Rightarrow> nat" where
  "clip_index n i = (if i < 0 then nat (max 0 (int n + i)) else min n (nat i))"

text \<open>\<^verbatim>\<open>xs[lo:hi]\<close>, \<^verbatim>\<open>xs[:hi]\<close> and \<^verbatim>\<open>xs[lo:]\<close>\<close>

definition py_slice :: "'a list \<Rightarrow> int \<Rightarrow> int \<Rightarrow> 'a list" where
  "py_slice xs lo hi = drop (clip_index (length xs) lo) (take (clip_index (length xs) hi) xs)"

definition py_upto :: "'a list \<Rightarrow> int \<Rightarrow> 'a list" where
  "py_upto xs hi = take (clip_index (length xs) hi) xs"

definition py_from :: "'a list \<Rightarrow> int \<Rightarrow> 'a list" where
  "py_from xs lo = drop (clip_index (length xs) lo) xs"

text \<open>
  \<^verbatim>\<open>.max()\<close> and \<^verbatim>\<open>.min()\<close> of a one-dimensional array raise
  \<^verbatim>\<open>ValueError\<close> on an array of size zero.
\<close>

definition np_max :: "nat list \<Rightarrow> error + nat" where
  "np_max xs = (case xs of [] \<Rightarrow> Inl ValueError | x # ys \<Rightarrow> Inr (fold max ys x))"

definition np_min :: "nat list \<Rightarrow> error + nat" where
  "np_min xs = (case xs of [] \<Rightarrow> Inl ValueError | x # ys \<Rightarrow> Inr (fold min ys x))"

text \<open>\<^verbatim>\<open>np.where(mask)[0]\<close>: the positions at which the condition holds.\<close>

definition np_where :: "bool list \<Rightarrow> nat list" where
  "np_where cond = [i \<leftarrow> [0..<length cond]. cond ! i]"

text \<open>A comprehension whose body may raise stops at the first error.\<close>

fun map_err :: "('a \<Rightarrow> error + 'b) \<Rightarrow> 'a list \<Rightarrow> error + 'b list" where
  "map_err f [] = Inr []"
| "map_err f (x # xs) =
     (case f x of
        Inl e \<Rightarrow> Inl e
      | Inr y \<Rightarrow> (case map_err f xs of Inl e \<Rightarrow> Inl e | Inr ys \<Rightarrow> Inr (y # ys)))"

text \<open>
  The site columns of one locus (the slices along the sample axis). Arrays are
  rectangular; the width is read off the first sample row, and a locus without sample
  rows has no columns here.
\<close>

definition ncols :: "char list list \<Rightarrow> nat" where
  "ncols locus = (case locus of [] \<Rightarrow> 0 | row # _ \<Rightarrow> length row)"

definition columns :: "char list list \<Rightarrow> char list list" where
  "columns locus = map (\<lambda>j. map (\<lambda>row. row ! j) locus) [0..<ncols locus]"

subsection \<open>Edge trimming\<close>

text \<open>One row of \<^verbatim>\<open>ccx = np.sum(superseqs != "N", axis=1)\<close>.\<close>

definition site_counts :: "char list list \<Rightarrow> nat list" where
  "site_counts locus = map (\<lambda>col. length [c \<leftarrow> col. c \<noteq> CHR ''N'']) (columns locus)"

text \<open>
  \<^verbatim>\<open>r1s > edgemins[k]\<close> for one column. \<^verbatim>\<open>edgedict.get\<close> gives
  \<^verbatim>\<open>None\<close> for the policies 0 and 1, and Python 2 orders \<^verbatim>\<open>None\<close> below
  every number.
\<close>

definition exceeds :: "int option \<Rightarrow> nat \<Rightarrow> bool" where
  "exceeds edgemin n = (case edgemin of None \<Rightarrow> True | Some m \<Rightarrow> m < int n)"

text \<open>
  The \<^verbatim>\<open>try\<close> block of one read side: left edge, right edge, and whether
  \<^verbatim>\<open>ValueError\<close> was caught. An edge that was not assigned keeps its default 0.
\<close>

definition try_edges :: "nat list \<Rightarrow> int option \<Rightarrow> int option \<Rightarrow> int \<times> int \<times> bool" where
  "try_edges rs minl minr =
     (case np_min (np_where (map (exceeds minl) rs)) of
        Inl _ \<Rightarrow> (0, 0, True)
      | Inr lft \<Rightarrow>
          (case np_max (np_where (map (exceeds minr) rs)) of
             Inl _ \<Rightarrow> (int lft, 0, True)
           | Inr rgt \<Rightarrow> (int lft, int rgt, False)))"

text \<open>A value stored into the \<^verbatim>\<open>np.int16\<close> array \<^verbatim>\<open>edges\<close>.\<close>

definition int16 :: "int \<Rightarrow> int" where
  "int16 x = (x + 32768) mod 65536 - 32768"

type_synonym edge_row = "int \<times> int \<times> int \<times> int"

text \<open>The body of the loop \<^verbatim>\<open>for idx, split in enumerate(splits)\<close>.\<close>

definition locus_edges :: "paramsdict \<Rightarrow> int \<Rightarrow> nat list \<Rightarrow> int \<Rightarrow> bool \<times> edge_row" where
  "locus_edges data allsamp ccx_row split =
     (let (t0, t1, t2, t3) = edge_trimming data;
          (cut1, cut2) = restriction_overhangs data;
          edgedict = [2 \<mapsto> 4, 3 \<mapsto> minsamp data, 4 \<mapsto> allsamp];
          r1s = py_upto ccx_row split;
          r2s = py_from ccx_row (split + 4);
          (edge0, edge1, failed1) = try_edges r1s (edgedict t0) (edgedict t1);
          edge0 = (if t0 \<noteq> 0 then edge1 + int (length cut1) else edge0);
          (edge2, edge3, failed2) =
             (if is_paired data then try_edges r2s (edgedict t2) (edgedict t3)
              else (0, 0, False));
          edge3 = (if is_paired data \<and> t3 \<noteq> 0 then edge3 - int (length cut2) else edge3)
      in (failed1 \<or> failed2, (int16 edge0, int16 edge1, int16 edge2, int16 edge3)))"

text \<open>
  \<^verbatim>\<open>get_edges\<close> overwrites the gap and the empty cells of \<^verbatim>\<open>superseqs\<close> in
  place, so the array is returned with the two results. \<^verbatim>\<open>allsamp\<close> is
  \<^verbatim>\<open>superseqs.shape[0]\<close>, the length of the first axis. Loci beyond the end of
  \<^verbatim>\<open>splits\<close> keep the zero rows the arrays were created with; a split beyond the
  last locus is an \<^verbatim>\<open>IndexError\<close>.
\<close>

definition get_edges ::
  "paramsdict \<Rightarrow> char list list list \<Rightarrow> int list
     \<Rightarrow> error + (bool list \<times> edge_row list \<times> char list list list)" where
  "get_edges data superseqs splits =
     (let allsamp = int (length superseqs);
          superseqs = map (map (map (\<lambda>c. if c = CHR ''-'' then CHR ''N'' else c))) superseqs;
          superseqs = map (map (map (\<lambda>c. if c = CHR 0x00 then CHR ''N'' else c))) superseqs;
          ccx = map site_counts superseqs;
          rows = map (\<lambda>(ccx_row, split). locus_edges data allsamp ccx_row split) (zip ccx splits);
          rest = replicate (length ccx - length splits) (False, (0, 0, 0, 0))
      in if length ccx < length splits then Inl IndexError
         else Inr (map fst (rows @ rest), map snd (rows @ rest), superseqs))"

subsection \<open>The locus filters\<close>

text \<open>
  \<^verbatim>\<open>np.all(superseqs != "N", axis=2).sum(axis=1) < minsamp\<close>: per locus, the number
  of sample rows in which every site differs from N, compared with the minimum.
\<close>

definition filter_minsamp :: "paramsdict \<Rightarrow> char list list list \<Rightarrow> bool list" where
  "filter_minsamp data superseqs =
     map (\<lambda>locus. int (length [row \<leftarrow> locus. list_all (\<lambda>c. c \<noteq> CHR ''N'') row])
                    < min_samples_locus data) superseqs"

text \<open>
  \<^verbatim>\<open>np.sum(superseqs[idx, :, lo:hi] == ambig, axis=1).max()\<close>: the slice of one locus
  has the axes (sample, site), so the sum along axis 1 gives one number per sample row,
  the number of sites of the row that hold the code.
\<close>

definition ambig_max :: "char list list \<Rightarrow> int \<Rightarrow> int \<Rightarrow> char \<Rightarrow> error + nat" where
  "ambig_max locus lo hi ambig =
     np_max (map (\<lambda>row. count_list (py_slice row lo hi) ambig) locus)"

text \<open>The scalar \<^verbatim>\<open>r1s\<close> (or \<^verbatim>\<open>r2s\<close>) of one read side.\<close>

definition shared_het :: "char list list \<Rightarrow> int \<Rightarrow> int \<Rightarrow> error + nat" where
  "shared_het locus lo hi =
     (case map_err (ambig_max locus lo hi) ''RSKYWM'' of
        Inl e \<Rightarrow> Inl e
      | Inr maxes \<Rightarrow> np_max maxes)"

definition locus_maxhet :: "paramsdict \<Rightarrow> char list list \<Rightarrow> edge_row \<Rightarrow> error + bool" where
  "locus_maxhet data locus edg =
     (let (e0, e1, e2, e3) = edg; (maxhet0, maxhet1) = max_shared_heterozygosity data
      in case shared_het locus e0 e1 of
           Inl e \<Rightarrow> Inl e
         | Inr r1s \<Rightarrow>
             (case shared_het locus e2 e3 of
                Inl e \<Rightarrow> Inl e
              | Inr r2s \<Rightarrow>
                  Inr (if \<not> is_paired data then \<not> of_nat r1s \<le> maxhet0
                       else \<not> (of_nat r1s \<le> maxhet0 \<and> of_nat r2s \<le> maxhet1))))"

definition filter_maxhet ::
  "paramsdict \<Rightarrow> char list list list \<Rightarrow> edge_row list \<Rightarrow> error + bool list" where
  "filter_maxhet data superseqs edges =
     (case map_err (\<lambda>(locus, edg). locus_maxhet data locus edg) (zip superseqs edges) of
        Inl e \<Rightarrow> Inl e
      | Inr hetfilt \<Rightarrow>
          if length superseqs < length edges then Inl IndexError
          else Inr (hetfilt @ replicate (length superseqs - length edges) False))"

text \<open>
  \<^verbatim>\<open>np.apply_along_axis(ucount, 1, superseqs)\<close>: \<^verbatim>\<open>ucount\<close> of every site
  column of every locus. numpy raises \<^verbatim>\<open>ValueError\<close> when an iteration axis
  (loci or sites) has length zero.
\<close>

definition apply_ucount :: "char list list list \<Rightarrow> error + char list list" where
  "apply_ucount superseqs =
     (case superseqs of
        [] \<Rightarrow> Inl ValueError
      | locus # _ \<Rightarrow>
          if ncols locus = 0 then Inl ValueError
          else Inr (map (\<lambda>locus. map ucount (columns locus)) superseqs))"

text \<open>
  \<^verbatim>\<open>filter_maxsnp\<close>. On the single-end branch the loop header
  \<^verbatim>\<open>for idx, edg in edges\<close> unpacks a row of four numbers into two names, which is
  a \<^verbatim>\<open>ValueError\<close> at the first row; with no row the function falls off its end
  and returns \<^verbatim>\<open>None\<close>. The paired branch reads \<^verbatim>\<open>splits\<close>, which is
  no parameter of the function and is assigned nowhere in the module. The result, when there is one, is Python's
  \<^verbatim>\<open>None\<close>: \<^term>\<open>None\<close> here.
\<close>

definition filter_maxsnp ::
  "paramsdict \<Rightarrow> char list list list \<Rightarrow> edge_row list
     \<Rightarrow> error + (bool list \<times> char list list) option" where
  "filter_maxsnp data superseqs edges =
     (let snpfilt = replicate (length superseqs) False
      in if \<not> is_paired data then
           (case apply_ucount superseqs of
              Inl e \<Rightarrow> Inl e
            | Inr snps \<Rightarrow> (case edges of [] \<Rightarrow> Inr None | row # _ \<Rightarrow> Inl ValueError))
         else Inl NameError)"

subsection \<open>The per-chunk engine\<close>

text \<open>The dictionary \<^verbatim>\<open>filters\<close> that the function is written to return.\<close>

record filters =
  edgfilter :: "bool list"
  minfilter :: "bool list"
  hetfilter :: "bool list"
  snpfilter :: "bool list"

text \<open>
  \<^verbatim>\<open>filter_stacks\<close>. The two reads of the HDF5 store are arguments: the slice
  \<^verbatim>\<open>superseqs\<close> and the stored split column. The local name \<^verbatim>\<open>splits\<close> is
  assigned on the paired branch only, so it is \<^term>\<open>None\<close> (unbound) otherwise, and
  the call of \<^verbatim>\<open>get_edges\<close> reads it. The call of \<^verbatim>\<open>filter_maxsnp\<close> passes four
  arguments to a function of three parameters. Every exception is logged and raised
  again.
\<close>

definition filter_stacks ::
  "paramsdict \<Rightarrow> char list list list \<Rightarrow> int list \<Rightarrow> error + filters" where
  "filter_stacks data superseqs stored_splits =
     (let splits = (if is_paired data then Some stored_splits else None)
      in case splits of
           None \<Rightarrow> Inl UnboundLocalError
         | Some splits \<Rightarrow>
             (case get_edges data superseqs splits of
                Inl e \<Rightarrow> Inl e
              | Inr (edgfilter', edges, superseqs) \<Rightarrow>
                  (let minfilter' = filter_minsamp data superseqs
                   in case filter_maxhet data superseqs edges of
                        Inl e \<Rightarrow> Inl e
                      | Inr hetfilter' \<Rightarrow> Inl TypeError)))"

subsection \<open>Sample selection\<close>

text \<open>
  Modelled from the spec: the class of the Sample objects is not among the sources. The
  spec gives a Sample a name and a status; \<^verbatim>\<open>precheck\<close> reads
  \<^verbatim>\<open>sample.name\<close> and \<^verbatim>\<open>sample.stats.state\<close>. An object of a class is equal to
  itself only, and never to a string.
\<close>

record sample =
  name :: string
  state :: int

datatype pyobj = Str string | SampleObj sample

text \<open>\<^verbatim>\<open>x or [""]\<close>: the empty string and the empty list are both false.\<close>

definition or_default :: "names_param \<Rightarrow> string list" where
  "or_default p = (case p of EmptyString \<Rightarrow> [''''] | Names ns \<Rightarrow> if ns = [] then [''''] else ns)"

definition excluded_names :: "paramsdict \<Rightarrow> string list" where
  "excluded_names data = or_default (excludes data) @ or_default (outgroups data)"

text \<open>\<^verbatim>\<open>dbsamples.index(i)\<close> raises \<^verbatim>\<open>ValueError\<close> when \<^verbatim>\<open>i\<close> is absent.\<close>

fun index_of :: "'a list \<Rightarrow> 'a \<Rightarrow> error + nat" where
  "index_of [] x = Inl ValueError"
| "index_of (y # ys) x =
     (if y = x then Inr 0
      else case index_of ys x of Inl e \<Rightarrow> Inl e | Inr k \<Rightarrow> Inr (Suc k))"

text \<open>
  \<^verbatim>\<open>select_samples\<close>. A Python set is a list without duplicates here; the order in
  which \<^verbatim>\<open>list(...)\<close> enumerates it is not fixed by the language and is the
  parameter \<open>hash_order\<close>, a rearrangement of the list.
\<close>

definition select_samples ::
  "(pyobj list \<Rightarrow> pyobj list) \<Rightarrow> paramsdict \<Rightarrow> pyobj list \<Rightarrow> pyobj list \<Rightarrow> error + nat list" where
  "select_samples hash_order data dbsamples samples =
     (let excludes = map Str (excluded_names data);
          includes = hash_order (remdups [i \<leftarrow> samples. i \<notin> set excludes])
      in map_err (index_of dbsamples) includes)"

text \<open>
  The sample filter of \<^verbatim>\<open>make_outfiles\<close>:
  \<^verbatim>\<open>[i for i in samples if i.name not in excludes]\<close>.
\<close>

definition make_outfiles_samples :: "paramsdict \<Rightarrow> sample list \<Rightarrow> sample list" where
  "make_outfiles_samples data samples = [i \<leftarrow> samples. name i \<notin> set (excluded_names data)]"

subsection \<open>The readings of the specification\<close>

text \<open>
  The definitions of this subsection follow the words of the specification, not the
  code; the theorems compare them with the functions above.
\<close>

text \<open>
  The bases a symbol stands for: an ambiguity code stands for its two bases, the
  missing and the gap symbol for none, every other symbol for itself.
\<close>

definition resolve :: "char \<Rightarrow> string" where
  "resolve c =
     (if c \<in> set ''RSKYWM'' then AMBIGS c
      else if c = CHR ''N'' \<or> c = CHR ''-'' then []
      else [c])"

text \<open>The distinct resolved bases of a site column.\<close>

definition resolved_bases :: "char list \<Rightarrow> char set" where
  "resolved_bases sitecol = set (concat (map resolve sitecol))"


text \<open>
  Edge-trim failure of one read side as specified: no column has a count of non-missing
  samples of at least the threshold.
\<close>

definition spec_edge_fail :: "int \<Rightarrow> nat list \<Rightarrow> bool" where
  "spec_edge_fail threshold rs = (\<not> list_ex (\<lambda>n. threshold \<le> int n) rs)"

text \<open>
  Minimum sample coverage as specified: the number of samples with at least one
  non-missing base is below the minimum.
\<close>

definition spec_minsamp_fail :: "int \<Rightarrow> char list list \<Rightarrow> bool" where
  "spec_minsamp_fail minimum locus =
     (int (length [row \<leftarrow> locus. list_ex (\<lambda>c. c \<noteq> CHR ''N'') row]) < minimum)"

text \<open>
  Shared heterozygosity as specified: the maximum over the six codes of the maximum
  over the site columns of the trimmed region of the number of samples that carry the
  code at the column.
\<close>

definition spec_shared_het :: "char list list \<Rightarrow> int \<Rightarrow> int \<Rightarrow> nat" where
  "spec_shared_het locus lo hi =
     fold max (map (\<lambda>ambig. fold max (map (\<lambda>col. count_list col ambig)
                                  (columns (map (\<lambda>row. py_slice row lo hi) locus))) 0)
                ''RSKYWM'') 0"

text \<open>
  The number of sites of the trimmed span that the classifier annotates as
  polymorphic.
\<close>

definition spec_nsnps :: "char list list \<Rightarrow> int \<Rightarrow> int \<Rightarrow> nat" where
  "spec_nsnps locus lo hi =
     length [c \<leftarrow> py_slice (map ucount (columns locus)) lo hi. c = CHR ''-'' \<or> c = CHR ''*'']"

subsection \<open>Two configurations\<close>

definition example_rad :: paramsdict where
  "example_rad =
     \<lparr>data_type = ''rad'', edge_trimming = (2, 2, 2, 2), minsamp = 4,
      restriction_overhangs = (''TGCAG'', ''''), min_samples_locus = 2,
      max_shared_heterozygosity = (2, 2), max_SNPs_locus = (1, 1),
      excludes = Names [''1B_0''], outgroups = EmptyString\<rparr>"

definition example_pair :: paramsdict where
  "example_pair =
     \<lparr>data_type = ''pairddrad'', edge_trimming = (2, 2, 2, 2), minsamp = 4,
      restriction_overhangs = (''TGCAG'', ''CCG''), min_samples_locus = 2,
      max_shared_heterozygosity = (2, 2), max_SNPs_locus = (1, 1),
      excludes = Names [''1B_0''], outgroups = EmptyString\<rparr>"

section \<open>Properties\<close>

subsection \<open>The polymorphism classifier\<close>

lemma fold_resolve_step_general:
  "(\<And>c. c \<in> set cs \<Longrightarrow> set (AMBIGS c) \<inter> set cs = {}) \<Longrightarrow>
   fold resolve_step cs S = (S - set cs) \<union> (\<Union>c\<in>set cs \<inter> S. set (AMBIGS c))"
proof (induction cs arbitrary: S)
  case Nil
  then show ?case by simp
next
  case (Cons a cs)
  have disj: "\<And>c. c \<in> set cs \<Longrightarrow> set (AMBIGS c) \<inter> set cs = {}"
    using Cons.prems by fastforce
  have a_disj: "set (AMBIGS a) \<inter> set (a # cs) = {}"
    using Cons.prems by simp
  have "fold resolve_step (a # cs) S = fold resolve_step cs (resolve_step a S)"
    by simp
  also have "\<dots> = (resolve_step a S - set cs)
                  \<union> (\<Union>c\<in>set cs \<inter> resolve_step a S. set (AMBIGS c))"
    using Cons.IH [OF disj] by simp
  also have "\<dots> = (S - set (a # cs)) \<union> (\<Union>c\<in>set (a # cs) \<inter> S. set (AMBIGS c))"
    using a_disj unfolding resolve_step_def by (cases "a \<in> S") auto
  finally show ?case .
qed

lemma AMBIGS_disjoint:
  "c \<in> set ''RSKYWM'' \<Longrightarrow> set (AMBIGS c) \<inter> set ''RSKYWM'' = {}"
  unfolding AMBIGS_def by (simp split: if_splits)

lemma AMBIGS_bases: "x \<in> set (AMBIGS c) \<Longrightarrow> x \<in> set ''GATC''"
  unfolding AMBIGS_def by (auto split: if_splits)

text \<open>
  The set that \<^const>\<open>ucount\<close> has built when it tests the size is the set of the
  distinct resolved bases of the column.
\<close>

lemma ucount_site:
  "fold resolve_step ''RSKYWM'' (set sitecol) - {CHR ''N''} - {CHR ''-''} = resolved_bases sitecol"
proof -
  have "fold resolve_step ''RSKYWM'' (set sitecol) =
          (set sitecol - set ''RSKYWM'')
          \<union> (\<Union>c\<in>set ''RSKYWM'' \<inter> set sitecol. set (AMBIGS c))"
    by (rule fold_resolve_step_general) (rule AMBIGS_disjoint)
  moreover have "resolved_bases sitecol = (\<Union>c\<in>set sitecol. set (resolve c))"
    by (simp add: resolved_bases_def)
  moreover have "((set sitecol - set ''RSKYWM'')
                  \<union> (\<Union>c\<in>set ''RSKYWM'' \<inter> set sitecol. set (AMBIGS c)))
                 - {CHR ''N''} - {CHR ''-''} = (\<Union>c\<in>set sitecol. set (resolve c))"
    (is "?L = ?R")
  proof (rule set_eqI)
    fix x
    show "x \<in> ?L \<longleftrightarrow> x \<in> ?R"
    proof
      assume "x \<in> ?L"
      then consider
        (base) "x \<in> set sitecol" "x \<notin> set ''RSKYWM''" "x \<noteq> CHR ''N''" "x \<noteq> CHR ''-''"
        | (amb) c where "c \<in> set ''RSKYWM''" "c \<in> set sitecol" "x \<in> set (AMBIGS c)"
        by blast
      then show "x \<in> ?R"
      proof cases
        case base
        then have "x \<in> set (resolve x)" unfolding resolve_def by simp
        with base(1) show ?thesis by blast
      next
        case amb
        then have "x \<in> set (resolve c)" unfolding resolve_def by simp
        with amb(2) show ?thesis by blast
      qed
    next
      assume "x \<in> ?R"
      then obtain c where c: "c \<in> set sitecol" "x \<in> set (resolve c)" by blast
      show "x \<in> ?L"
      proof (cases "c \<in> set ''RSKYWM''")
        case True
        then have xa: "x \<in> set (AMBIGS c)" using c(2) unfolding resolve_def by simp
        then have "x \<in> set ''GATC''" by (rule AMBIGS_bases)
        then have "x \<noteq> CHR ''N''" "x \<noteq> CHR ''-''" by auto
        with True c(1) xa show ?thesis by blast
      next
        case False
        then have "x = c \<and> x \<noteq> CHR ''N'' \<and> x \<noteq> CHR ''-''"
          using c(2) unfolding resolve_def by (simp split: if_splits)
        with False c(1) show ?thesis by blast
      qed
    qed
  qed
  ultimately show ?thesis by simp
qed



text \<open>
  Claim C10. A site column with two or more distinct resolved bases in which no base
  occurs more than once is annotated \<open>-\<close>. The second premise says that no resolved
  base fills more than one cell of the column.
\<close>

theorem ucount_singletons:
  assumes "2 \<le> card (resolved_bases sitecol)"
    and "{b \<in> resolved_bases sitecol. 1 < count_list sitecol b} = {}"
  shows "ucount sitecol = CHR ''-''"
  using assms(1) unfolding ucount_def Let_def ucount_site assms(2) by simp

theorem ucount_singletons_witness:
  "2 \<le> card (resolved_bases ''AT'')
   \<and> {b \<in> resolved_bases ''AT''. 1 < count_list ''AT'' b} = {}
   \<and> ucount ''AT'' = CHR ''-''"
proof -
  have h1: "2 \<le> card (resolved_bases ''AT'')" by code_simp
  have h2: "{b \<in> resolved_bases ''AT''. 1 < count_list ''AT'' b} = {}" by code_simp
  show ?thesis using h1 h2 ucount_singletons [OF h1 h2] by simp
qed

subsection \<open>Edge trimming\<close>

lemma example_rad_unpaired: "\<not> is_paired example_rad"
  by (simp add: is_paired_def example_rad_def)

lemma example_pair_paired: "is_paired example_pair"
  by (simp add: is_paired_def example_pair_def)

lemma np_where_empty: "np_where bs = [] \<longleftrightarrow> \<not> list_ex (\<lambda>b. b) bs"
  by (auto simp: np_where_def filter_empty_conv list_ex_iff in_set_conv_nth)

text \<open>
  The \<^verbatim>\<open>try\<close> block of a read side reports a failure exactly when no column
  exceeds the threshold of the left edge or none exceeds that of the right edge. The
  comparison is the strict one of \<^const>\<open>exceeds\<close>.
\<close>

lemma try_edges_flag:
  "snd (snd (try_edges rs minl minr))
     = (\<not> list_ex (exceeds minl) rs \<or> \<not> list_ex (exceeds minr) rs)"
proof -
  have l: "np_where (map (exceeds minl) rs) = [] \<longleftrightarrow> \<not> list_ex (exceeds minl) rs"
    by (simp add: np_where_empty list_ex_iff)
  have r: "np_where (map (exceeds minr) rs) = [] \<longleftrightarrow> \<not> list_ex (exceeds minr) rs"
    by (simp add: np_where_empty list_ex_iff)
  show ?thesis
    unfolding l [symmetric] r [symmetric]
    by (cases "np_where (map (exceeds minl) rs)"; cases "np_where (map (exceeds minr) rs)")
       (simp_all add: try_edges_def np_min_def np_max_def)
qed

text \<open>
  Claim C2: the edge-trim-failure flag of a locus is set if and only if no site column of
  the read side has a count of non-missing samples of at least the threshold of the
  policy (4 for policy 2, the configured minimum for policy 3, all samples for policy
  4), and the failure is a flag, never an exception. The comments of
  \<^verbatim>\<open>get_edges\<close> say the same (``data for >= 4 samples''), yet the code
  compares with \<^verbatim>\<open>r1s > edgemins[0]\<close>. In a paired locus of four samples without
  missing data every column of both read sides has the count 4: no side fails as
  specified, and \<^const>\<open>get_edges\<close> sets the flag under policy 2.
\<close>

theorem get_edges_strict_comparison:
  "get_edges example_pair [replicate 4 ''ACGTnnnnACGT''] [4]
     = Inr ([True], [(5, 0, 0, - 3)], [replicate 4 ''ACGTnnnnACGT''])
   \<and> site_counts (replicate 4 ''ACGTnnnnACGT'') = replicate 12 4
   \<and> spec_edge_fail 4 (py_upto (site_counts (replicate 4 ''ACGTnnnnACGT'')) 4) = False
   \<and> spec_edge_fail 4 (py_from (site_counts (replicate 4 ''ACGTnnnnACGT'')) (4 + 4)) = False"
proof -
  have "get_edges example_pair [replicate 4 ''ACGTnnnnACGT''] [4]
     = Inr ([True], [(5, 0, 0, - 3)], [replicate 4 ''ACGTnnnnACGT''])"
    by code_simp
  moreover have "site_counts (replicate 4 ''ACGTnnnnACGT'') = replicate 12 4"
    by code_simp
  moreover have "spec_edge_fail 4 (py_upto (site_counts (replicate 4 ''ACGTnnnnACGT'')) 4) = False"
    by code_simp
  moreover have "spec_edge_fail 4 (py_from (site_counts (replicate 4 ''ACGTnnnnACGT'')) (4 + 4)) = False"
    by code_simp
  ultimately show ?thesis by (intro conjI)
qed

text \<open>
  The threshold of policy 4 is \<^verbatim>\<open>superseqs.shape[0]\<close>, the number of loci of the
  chunk, where the docstring of \<^verbatim>\<open>filter_minsamp\<close> gives the shape as (chunk,
  samples, sites). In a chunk of one locus with two of four samples missing everywhere
  the count 2 exceeds 1 and the locus is not flagged.
\<close>

lemma get_edges_allsamp_is_chunk_length:
  "get_edges (example_pair\<lparr>edge_trimming := (4, 4, 4, 4)\<rparr>)
      [[''ACGTnnnnACGT'', ''ACGTnnnnACGT'', ''NNNNNNNNNNNN'', ''NNNNNNNNNNNN'']] [4]
     = Inr ([False], [(8, 3, 0, 0)],
            [[''ACGTnnnnACGT'', ''ACGTnnnnACGT'', ''NNNNNNNNNNNN'', ''NNNNNNNNNNNN'']])"
  by code_simp

text \<open>
  Claim C7: where the policy entry of an edge is nonzero, the boundary of that edge is
  its own coverage-derived boundary moved inward by the length of the overhang of the
  side; the left boundary of side 1 grows by the length of overhang 1, the right
  boundary of side 2 shrinks by the length of overhang 2. For side 2 the code has
  \<^verbatim>\<open>edge3 = edge3-len(cut2)\<close>; for side 1 it has
  \<^verbatim>\<open>edge0 = edge1+len(cut1)\<close>. In a paired locus of five complete samples the
  coverage-derived boundaries of side 1 are 0 and 3 and overhang 1 has five bases: the
  left boundary should be 5, and \<^const>\<open>get_edges\<close> stores 8.
\<close>

theorem get_edges_left_edge_from_right:
  "get_edges example_pair [replicate 5 ''ACGTnnnnACGT''] [4]
     = Inr ([False], [(8, 3, 0, 0)], [replicate 5 ''ACGTnnnnACGT''])
   \<and> try_edges (py_upto (site_counts (replicate 5 ''ACGTnnnnACGT'')) 4) (Some 4) (Some 4)
       = (0, 3, False)
   \<and> length (fst (restriction_overhangs example_pair)) = 5"
proof -
  have "get_edges example_pair [replicate 5 ''ACGTnnnnACGT''] [4]
     = Inr ([False], [(8, 3, 0, 0)], [replicate 5 ''ACGTnnnnACGT''])"
    by code_simp
  moreover have "try_edges (py_upto (site_counts (replicate 5 ''ACGTnnnnACGT'')) 4) (Some 4) (Some 4)
       = (0, 3, False)"
    by code_simp
  moreover have "length (fst (restriction_overhangs example_pair)) = 5"
    by (simp add: example_pair_def)
  ultimately show ?thesis by (intro conjI)
qed

subsection \<open>Minimum sample coverage\<close>

text \<open>
  Claim C3: a locus fails if and only if the number of samples with at least one
  non-missing base is below the minimum; a sample with some missing sites still
  counts. The comment in \<^verbatim>\<open>filter_minsamp\<close> says ``the number of samples that are
  not all Ns''; the code takes \<^verbatim>\<open>np.all(superseqs != "N", axis=2)\<close>, the samples
  without any N. With a minimum of two, the locus of the samples AN and AC has two
  covered samples and passes as specified; \<^const>\<open>filter_minsamp\<close> flags it.
\<close>

theorem filter_minsamp_partial_sample:
  "filter_minsamp example_rad [[''AN'', ''AC'']] = [True]
   \<and> spec_minsamp_fail (min_samples_locus example_rad) [''AN'', ''AC''] = False"
  by (simp add: filter_minsamp_def spec_minsamp_fail_def example_rad_def)

subsection \<open>Shared heterozygosity\<close>

lemma np_max_Max: "xs \<noteq> [] \<Longrightarrow> np_max xs = Inr (Max (set xs))"
proof (cases xs)
  case Nil
  assume "xs \<noteq> []"
  with Nil show ?thesis by simp
next
  case (Cons x ys)
  have "fold max ys x = Max (set (x # ys))"
    by (rule Max.set_eq_fold [symmetric])
  with Cons show ?thesis by (simp add: np_max_def)
qed

lemma np_max_Inr: "np_max xs = Inr m \<Longrightarrow> xs \<noteq> [] \<and> m = Max (set xs)"
  using np_max_Max [of xs] by (cases xs) (simp_all add: np_max_def)

lemma map_err_Inr: "(\<And>x. x \<in> set xs \<Longrightarrow> f x = Inr (g x)) \<Longrightarrow> map_err f xs = Inr (map g xs)"
  by (induction xs) simp_all

lemma count_list_update_ge: "count_list xs a \<le> count_list (xs[j := a]) a"
proof (induction xs arbitrary: j)
  case Nil
  then show ?case by simp
next
  case (Cons x xs)
  show ?case
  proof (cases j)
    case 0
    then show ?thesis by simp
  next
    case (Suc k)
    then show ?thesis using Cons.IH [of k] by simp
  qed
qed

lemma py_slice_update_ge:
  "count_list (py_slice xs lo hi) a \<le> count_list (py_slice (xs[j := a]) lo hi) a"
proof -
  define A where "A = clip_index (length xs) lo"
  define B where "B = clip_index (length xs) hi"
  have old: "py_slice xs lo hi = drop A (take B xs)"
    by (simp add: py_slice_def A_def B_def)
  have new: "py_slice (xs[j := a]) lo hi = drop A ((take B xs)[j := a])"
    by (simp add: py_slice_def A_def B_def take_update_swap)
  show ?thesis
  proof (cases "A \<le> j")
    case True
    then have "drop A ((take B xs)[j := a]) = (drop A (take B xs))[j - A := a]"
      by (rule drop_update_swap)
    then show ?thesis unfolding old new by (simp add: count_list_update_ge)
  next
    case False
    then have "drop A ((take B xs)[j := a]) = drop A (take B xs)"
      by (simp add: drop_update_cancel)
    then show ?thesis unfolding old new by simp
  qed
qed

text \<open>
  Given the two scalars, the flag of a locus is as specified: side 1 above its
  threshold for single-end data, either side above its own threshold for paired data.
\<close>

lemma locus_maxhet_flag:
  assumes "shared_het locus e0 e1 = Inr r1s" and "shared_het locus e2 e3 = Inr r2s"
  shows "locus_maxhet data locus (e0, e1, e2, e3) =
           Inr (if is_paired data
                then fst (max_shared_heterozygosity data) < of_nat r1s
                     \<or> snd (max_shared_heterozygosity data) < of_nat r2s
                else fst (max_shared_heterozygosity data) < of_nat r1s)"
  using assms by (auto simp: locus_maxhet_def Let_def split: prod.splits)

text \<open>
  Claim C4: the scalar of a read side is the maximum over the six codes of the maximum
  over the site columns of the trimmed region of the number of samples that carry the
  code at the column, and the locus fails when the scalar exceeds the threshold. The
  comment in \<^verbatim>\<open>filter_maxhet\<close> says ``the per site number of bases in ambig'', and
  \<^verbatim>\<open>count_shared_polymorphisms\<close> counts per site; the code sums along axis 1 of
  the two-dimensional slice of one locus, which is the site axis, and so counts per
  sample. Three samples that all carry R at the first site share a heterozygous site
  three times, above the threshold 2; \<^const>\<open>shared_het\<close> is 1 and the locus passes.
\<close>

theorem filter_maxhet_counts_per_sample:
  "filter_maxhet example_rad [[''RA'', ''RA'', ''RA'']] [(0, 2, 0, 0)] = Inr [False]
   \<and> shared_het [''RA'', ''RA'', ''RA''] 0 2 = Inr 1
   \<and> spec_shared_het [''RA'', ''RA'', ''RA''] 0 2 = 3
   \<and> fst (max_shared_heterozygosity example_rad) = 2"
proof -
  have "filter_maxhet example_rad [[''RA'', ''RA'', ''RA'']] [(0, 2, 0, 0)] = Inr [False]"
    by code_simp
  moreover have "shared_het [''RA'', ''RA'', ''RA''] 0 2 = Inr 1" by code_simp
  moreover have "spec_shared_het [''RA'', ''RA'', ''RA''] 0 2 = 3" by code_simp
  moreover have "fst (max_shared_heterozygosity example_rad) = 2"
    by (simp add: example_rad_def)
  ultimately show ?thesis by (intro conjI)
qed

text \<open>
  The other way round, one sample that carries R at three sites fails the locus,
  although no site is shared by more than one sample.
\<close>

lemma filter_maxhet_one_sample_many_sites:
  "filter_maxhet example_rad [[''RRR'', ''AAA'']] [(0, 3, 0, 0)] = Inr [True]
   \<and> spec_shared_het [''RRR'', ''AAA''] 0 3 = 1"
proof -
  have "filter_maxhet example_rad [[''RRR'', ''AAA'']] [(0, 3, 0, 0)] = Inr [True]"
    by code_simp
  moreover have "spec_shared_het [''RRR'', ''AAA''] 0 3 = 1" by code_simp
  ultimately show ?thesis by (intro conjI)
qed

text \<open>
  What the computed scalar does satisfy: when one cell of a locus is overwritten with a
  code whose own maximum, counted per sample as \<^const>\<open>ambig_max\<close> counts, is
  the current scalar, the scalar does not decrease.
\<close>

lemma shared_het_own_count_monotone:
  assumes scalar: "shared_het locus lo hi = Inr m"
    and code: "ambig \<in> set ''RSKYWM''"
    and maximal: "ambig_max locus lo hi ambig = Inr m"
  shows "\<exists>m'. shared_het (locus[s := (locus ! s)[j := ambig]]) lo hi = Inr m' \<and> m \<le> m'"
proof -
  define locus' where "locus' = locus[s := (locus ! s)[j := ambig]]"
  define g where "g c row = count_list (py_slice row lo hi) c" for c and row :: "char list"
  define f where "f rows c = Max (set (map (g c) rows))" for rows c
  have len: "length locus' = length locus" by (simp add: locus'_def)
  have ne: "locus \<noteq> []"
    using np_max_Inr [OF maximal [unfolded ambig_max_def]] by simp
  then have ne': "locus' \<noteq> []" using len by auto
  have m: "m = f locus ambig"
    using np_max_Inr [OF maximal [unfolded ambig_max_def]] by (simp add: f_def g_def)
  have each: "ambig_max locus' lo hi c = Inr (f locus' c)" for c
    unfolding ambig_max_def f_def g_def using ne' by (simp add: np_max_Max)
  have "map_err (ambig_max locus' lo hi) ''RSKYWM'' = Inr (map (f locus') ''RSKYWM'')"
    by (rule map_err_Inr) (rule each)
  then have "shared_het locus' lo hi = np_max (map (f locus') ''RSKYWM'')"
    unfolding shared_het_def by (simp only: sum.case)
  also have "\<dots> = Inr (Max (set (map (f locus') ''RSKYWM'')))"
    by (rule np_max_Max) simp
  finally have res: "shared_het locus' lo hi = Inr (Max (set (map (f locus') ''RSKYWM'')))" .
  have pointwise: "g ambig (locus ! i) \<le> g ambig (locus' ! i)" if "i < length locus" for i
  proof (cases "i = s")
    case True
    with that have "locus' ! i = (locus ! i)[j := ambig]" by (simp add: locus'_def)
    then show ?thesis by (simp add: g_def py_slice_update_ge)
  next
    case False
    then have "locus' ! i = locus ! i" by (simp add: locus'_def)
    then show ?thesis by simp
  qed
  have below: "f locus ambig \<le> f locus' ambig"
    unfolding f_def
  proof (rule Max.boundedI)
    show "finite (set (map (g ambig) locus))" by simp
    show "set (map (g ambig) locus) \<noteq> {}" using ne by simp
    fix x assume "x \<in> set (map (g ambig) locus)"
    then obtain i where i: "i < length locus" "x = g ambig (locus ! i)"
      by (auto simp: in_set_conv_nth)
    have "g ambig (locus' ! i) \<in> set (map (g ambig) locus')"
      using i(1) len by simp
    then have "g ambig (locus' ! i) \<le> Max (set (map (g ambig) locus'))"
      by (simp del: set_map)
    with pointwise [OF i(1)] i(2) show "x \<le> Max (set (map (g ambig) locus'))" by simp
  qed
  have among: "f locus' ambig \<le> Max (set (map (f locus') ''RSKYWM''))"
  proof (rule Max_ge)
    show "finite (set (map (f locus') ''RSKYWM''))" by simp
    have "f locus' ambig \<in> f locus' ` set ''RSKYWM''" using code by (rule imageI)
    then show "f locus' ambig \<in> set (map (f locus') ''RSKYWM'')" by (simp only: set_map)
  qed
  have "m \<le> Max (set (map (f locus') ''RSKYWM''))"
    unfolding m by (rule order_trans [OF below among])
  with res have "shared_het locus' lo hi = Inr (Max (set (map (f locus') ''RSKYWM'')))
      \<and> m \<le> Max (set (map (f locus') ''RSKYWM''))"
    by (rule conjI)
  then show ?thesis unfolding locus'_def by (rule exI)
qed


subsection \<open>The SNP count\<close>

text \<open>
  \<^const>\<open>filter_maxsnp\<close> never returns flags: it raises, or it returns
  \<^verbatim>\<open>None\<close>.
\<close>

lemma filter_maxsnp_no_flags: "filter_maxsnp data superseqs edges \<noteq> Inr (Some r)"
  by (simp add: filter_maxsnp_def Let_def split: sum.splits list.splits)

text \<open>
  Claim C5: a single-end locus fails if and only if the number of polymorphic sites of
  the trimmed span of side 1 exceeds \<^verbatim>\<open>max_SNPs_locus[0]\<close>. The comment in
  \<^verbatim>\<open>filter_maxsnp\<close> says ``count how many snps are within the edges and fill
  snpfilt''; the loop header \<^verbatim>\<open>for idx, edg in edges\<close> lacks the
  \<^verbatim>\<open>enumerate\<close> of the loop in \<^verbatim>\<open>filter_maxhet\<close> and raises at the first row.
  The locus below has two polymorphic sites with a maximum of one and is to be flagged;
  the function raises \<^verbatim>\<open>ValueError\<close>.
\<close>

theorem filter_maxsnp_raises:
  "filter_maxsnp example_rad [[''AAC'', ''ATC'', ''ATG'', ''AAG'']] [(0, 3, 0, 0)] = Inl ValueError
   \<and> spec_nsnps [''AAC'', ''ATC'', ''ATG'', ''AAG''] 0 3 = 2
   \<and> fst (max_SNPs_locus example_rad) = 1"
proof -
  have "filter_maxsnp example_rad [[''AAC'', ''ATC'', ''ATG'', ''AAG'']] [(0, 3, 0, 0)] = Inl ValueError"
    by (simp add: filter_maxsnp_def example_rad_unpaired apply_ucount_def ncols_def)
  moreover have "spec_nsnps [''AAC'', ''ATC'', ''ATG'', ''AAG''] 0 3 = 2" by code_simp
  moreover have "fst (max_SNPs_locus example_rad) = 1" by (simp add: example_rad_def)
  ultimately show ?thesis by (intro conjI)
qed

subsection \<open>The per-chunk engine\<close>

lemma filter_stacks_unpaired:
  "\<not> is_paired data \<Longrightarrow> filter_stacks data superseqs stored_splits = Inl UnboundLocalError"
  by (simp add: filter_stacks_def)

text \<open>On no input does \<^const>\<open>filter_stacks\<close> return the dictionary of filters.\<close>

lemma filter_stacks_no_result: "filter_stacks data superseqs stored_splits \<noteq> Inr r"
  by (simp add: filter_stacks_def Let_def split: sum.splits prod.splits)

text \<open>
  Claim C6: for a single-end configuration \<^verbatim>\<open>filter_stacks\<close> runs to completion and
  returns the filters of the chunk without reaching an undefined variable. The function
  ends in \<^verbatim>\<open>return filters\<close>, but \<^verbatim>\<open>splits\<close> is assigned on the paired
  branch only and is read by the call of \<^verbatim>\<open>get_edges\<close>: the single-end call
  raises \<^verbatim>\<open>UnboundLocalError\<close>.
\<close>

theorem filter_stacks_single_end_raises:
  "filter_stacks example_rad [[''AAC'', ''ATC'', ''ATG'', ''AAG'']] [3] = Inl UnboundLocalError"
  by (simp add: filter_stacks_def example_rad_unpaired)

subsection \<open>Sample selection\<close>

lemma index_of_absent: "x \<notin> set ys \<Longrightarrow> index_of ys x = Inl ValueError"
  by (induction ys) auto

lemma index_of_Inr: "index_of ys x = Inr k \<Longrightarrow> k < length ys \<and> ys ! k = x"
proof (induction ys arbitrary: k)
  case Nil
  then show ?case by simp
next
  case (Cons y ys)
  show ?case
  proof (cases "y = x")
    case True
    with Cons.prems show ?thesis by simp
  next
    case False
    with Cons.prems obtain k' where k': "index_of ys x = Inr k'" "k = Suc k'"
      by (auto split: sum.splits)
    with Cons.IH [OF k'(1)] show ?thesis by simp
  qed
qed

lemma map_err_Inr_set:
  "map_err f xs = Inr ys \<Longrightarrow> y \<in> set ys \<Longrightarrow> \<exists>x\<in>set xs. f x = Inr y"
proof (induction xs arbitrary: ys)
  case Nil
  then show ?case by simp
next
  case (Cons x xs)
  from Cons.prems(1) obtain z zs where z: "f x = Inr z" "map_err f xs = Inr zs" "ys = z # zs"
    by (auto split: sum.splits)
  show ?case
  proof (cases "y = z")
    case True
    with z(1) show ?thesis by simp
  next
    case False
    with Cons.prems(2) z(3) have "y \<in> set zs" by simp
    from Cons.IH [OF z(2) this] show ?thesis by auto
  qed
qed

text \<open>
  Every index that \<^const>\<open>select_samples\<close> returns is the row of a stored name that
  is neither excluded nor an outgroup.
\<close>

lemma select_samples_rows:
  assumes order: "\<And>xs. set (hash_order xs) \<subseteq> set xs"
    and sel: "select_samples hash_order data dbsamples samples = Inr sidx"
    and k: "k \<in> set sidx"
  shows "k < length dbsamples \<and> dbsamples ! k \<notin> Str ` set (excluded_names data)"
proof -
  define incl where
    "incl = hash_order (remdups [i \<leftarrow> samples. i \<notin> set (map Str (excluded_names data))])"
  have "map_err (index_of dbsamples) incl = Inr sidx"
    using sel by (simp add: select_samples_def incl_def)
  from map_err_Inr_set [OF this k] obtain i where
    i: "i \<in> set incl" "index_of dbsamples i = Inr k" by blast
  have "i \<notin> Str ` set (excluded_names data)"
    using i(1) order unfolding incl_def by fastforce
  with index_of_Inr [OF i(2)] show ?thesis by simp
qed

text \<open>
  \<^verbatim>\<open>run\<close> passes the Sample objects that \<^verbatim>\<open>precheck\<close> returns. None of them
  equals a name, so the difference of the sets removes nothing and the first lookup in
  the stored names fails.
\<close>

lemma select_samples_objects:
  assumes order: "\<And>xs. set (hash_order xs) = set xs"
    and nonempty: "samples \<noteq> []"
    and objects: "\<And>i. i \<in> set samples \<Longrightarrow> \<exists>s. i = SampleObj s"
    and names: "\<And>d. d \<in> set dbsamples \<Longrightarrow> \<exists>n. d = Str n"
  shows "select_samples hash_order data dbsamples samples = Inl ValueError"
proof -
  define incl where
    "incl = hash_order (remdups [i \<leftarrow> samples. i \<notin> set (map Str (excluded_names data))])"
  have keep: "[i \<leftarrow> samples. i \<notin> set (map Str (excluded_names data))] = samples"
    using objects by (auto simp: filter_id_conv)
  have set_inc: "set incl = set samples"
    unfolding incl_def keep by (simp add: order)
  with nonempty obtain x rest where inc: "incl = x # rest"
    by (cases incl) auto
  with set_inc have "x \<in> set samples" by auto
  then have "x \<notin> set dbsamples" using objects names by blast
  then have "index_of dbsamples x = Inl ValueError" by (rule index_of_absent)
  then have "map_err (index_of dbsamples) incl = Inl ValueError"
    by (simp add: inc)
  then show ?thesis by (simp add: select_samples_def incl_def)
qed

text \<open>The filter of \<^verbatim>\<open>make_outfiles\<close> compares the names of the samples.\<close>

lemma make_outfiles_samples_excluded:
  "i \<in> set (make_outfiles_samples data samples) \<Longrightarrow> name i \<notin> set (excluded_names data)"
  by (simp add: make_outfiles_samples_def)

text \<open>
  Claim C8: for every excluded or outgroup name the selection of row indices omits the
  row of that sample, and an excluded name that is not in the Sample set changes
  nothing. The docstring of \<^verbatim>\<open>select_samples\<close> says ``the row index of samples
  that are included, minus the samples that are excluded''. On names the function does
  so, and \<^verbatim>\<open>make_outfiles\<close> filters by \<^verbatim>\<open>i.name\<close>; on the Sample objects it is
  called with, no selection is computed: with the sample 1B\_0 excluded the selection
  should be the row 0, and the call raises \<^verbatim>\<open>ValueError\<close>.
\<close>

theorem select_samples_objects_raise:
  "select_samples (\<lambda>xs. xs) example_rad [Str ''1A_0'', Str ''1B_0'']
      [SampleObj \<lparr>name = ''1A_0'', state = 6\<rparr>, SampleObj \<lparr>name = ''1B_0'', state = 6\<rparr>]
     = Inl ValueError
   \<and> select_samples (\<lambda>xs. xs) example_rad [Str ''1A_0'', Str ''1B_0'']
        [Str ''1A_0'', Str ''1B_0''] = Inr [0]
   \<and> make_outfiles_samples example_rad
        [\<lparr>name = ''1A_0'', state = 6\<rparr>, \<lparr>name = ''1B_0'', state = 6\<rparr>]
     = [\<lparr>name = ''1A_0'', state = 6\<rparr>]"
proof -
  have "select_samples (\<lambda>xs. xs) example_rad [Str ''1A_0'', Str ''1B_0'']
      [SampleObj \<lparr>name = ''1A_0'', state = 6\<rparr>, SampleObj \<lparr>name = ''1B_0'', state = 6\<rparr>]
     = Inl ValueError"
    by code_simp
  moreover have "select_samples (\<lambda>xs. xs) example_rad [Str ''1A_0'', Str ''1B_0'']
        [Str ''1A_0'', Str ''1B_0''] = Inr [0]"
    by code_simp
  moreover have "make_outfiles_samples example_rad
        [\<lparr>name = ''1A_0'', state = 6\<rparr>, \<lparr>name = ''1B_0'', state = 6\<rparr>]
     = [\<lparr>name = ''1A_0'', state = 6\<rparr>]"
    by code_simp
  ultimately show ?thesis by (intro conjI)
qed

end
